theory Spec2Isabelle
  imports Complex_Main "HOL-Library.Sublist"
begin

section \<open>Strings and numbers\<close>

text \<open>
  JavaScript strings are modelled as HOL strings (lists of 8-bit characters, read as
  Latin-1 code units), JavaScript numbers that hold counts and indices as \<open>nat\<close> or
  \<open>int\<close>, and the fractional scores and ratios as exact rationals (\<open>rat\<close>): every
  quotient the code takes is a quotient of two small integers, and the thresholds it is
  compared with (0.35, 0.05) are far from any rounding error of a double.
\<close>

definition isSpace :: "char \<Rightarrow> bool" where
  \<comment> \<open>the class \<open>\s\<close> of a regular expression, and what \<open>trim\<close> removes\<close>
  "isSpace c = (c \<in> set [CHR '' '', CHR 0x09, CHR 0x0A, CHR 0x0B, CHR 0x0C, CHR 0x0D, CHR 0xA0])"

definition trim :: "string \<Rightarrow> string" where
  "trim s = rev (dropWhile isSpace (rev (dropWhile isSpace s)))"

definition toLowerChar :: "char \<Rightarrow> char" where
  "toLowerChar c =
     (case map_of (zip ''ABCDEFGHIJKLMNOPQRSTUVWXYZ'' ''abcdefghijklmnopqrstuvwxyz'') c of
        Some d \<Rightarrow> d | None \<Rightarrow> c)"

definition toUpperChar :: "char \<Rightarrow> char" where
  "toUpperChar c =
     (case map_of (zip ''abcdefghijklmnopqrstuvwxyz'' ''ABCDEFGHIJKLMNOPQRSTUVWXYZ'') c of
        Some d \<Rightarrow> d | None \<Rightarrow> c)"

definition toLowerCase :: "string \<Rightarrow> string" where
  "toLowerCase s = map toLowerChar s"


definition isAlnum :: "char \<Rightarrow> bool" where
  \<comment> \<open>the class \<open>[a-z0-9]\<close> under the flag \<open>i\<close>\<close>
  "isAlnum c = (toLowerChar c \<in> set ''abcdefghijklmnopqrstuvwxyz0123456789'')"

definition str_includes :: "string \<Rightarrow> string \<Rightarrow> bool" where
  \<comment> \<open>\<open>a.includes(b)\<close>: \<open>b\<close> occurs in \<open>a\<close> as a contiguous substring\<close>
  "str_includes a b = sublist b a"

fun showNat :: "nat \<Rightarrow> string" where
  "showNat n =
     (if n < 10 then [''0123456789'' ! n]
      else showNat (n div 10) @ [''0123456789'' ! (n mod 10)])"

definition roundHalfUp :: "rat \<Rightarrow> int" where
  "roundHalfUp x = \<lfloor>x + 1 / 2\<rfloor>"

definition toFixed :: "nat \<Rightarrow> rat \<Rightarrow> rat" where
  \<comment> \<open>\<open>Number(x.toFixed(d))\<close> for \<open>x \<ge> 0\<close>: \<open>x\<close> rounded to \<open>d\<close> decimals, a tie
      going up\<close>
  "toFixed d x = of_int (roundHalfUp (x * 10 ^ d)) / 10 ^ d"

definition percent :: "rat \<Rightarrow> string" where
  \<comment> \<open>\<open>(x * 100).toFixed(0)\<close> for \<open>x \<ge> 0\<close>\<close>
  "percent x = showNat (nat (roundHalfUp (x * 100)))"

section \<open>Lexical utilities (automationService.ts)\<close>

fun splitTokens :: "string \<Rightarrow> string \<Rightarrow> string list" where
  "splitTokens cur [] = (if cur = [] then [] else [cur])"
| "splitTokens cur (c # cs) =
     (if isAlnum c then splitTokens (cur @ [c]) cs
      else (if cur = [] then [] else [cur]) @ splitTokens [] cs)"

definition tokenize :: "string \<Rightarrow> string list" where
  \<comment> \<open>\<open>text.toLowerCase().split(/[^a-z0-9]+/i).filter(Boolean)\<close>: the maximal runs
      of letters and digits of the lower-cased text\<close>
  "tokenize txt = splitTokens [] (toLowerCase txt)"

definition jaccard :: "string set \<Rightarrow> string set \<Rightarrow> rat" where
  "jaccard a b =
     (let intersection = a \<inter> b;
          unionSize = (if card (a \<union> b) = 0 then 1 else card (a \<union> b))
      in of_nat (card intersection) / of_nat unionSize)"

definition quoteOverlapScore :: "string \<Rightarrow> string \<Rightarrow> rat" where
  "quoteOverlapScore a b =
     (if a = [] \<or> b = [] then 0
      else if str_includes a b \<or> str_includes b a then 1
      else jaccard (set (tokenize a)) (set (tokenize b)))"

fun collapseSpaces :: "bool \<Rightarrow> string \<Rightarrow> string" where
  \<comment> \<open>\<open>replace(/\s+/g, ' ')\<close>; the flag says that the run of white space the
      scan is in has been replaced already\<close>
  "collapseSpaces inRun [] = []"
| "collapseSpaces inRun (c # cs) =
     (if isSpace c then (if inRun then collapseSpaces True cs else CHR '' '' # collapseSpaces True cs)
      else c # collapseSpaces False cs)"

definition clean :: "string \<Rightarrow> string" where
  \<comment> \<open>lower case, drop what is neither letter, digit nor white space, collapse white
      space, trim\<close>
  "clean txt =
     trim (collapseSpaces False (filter (\<lambda>c. isAlnum c \<or> isSpace c) (toLowerCase txt)))"

definition commentSimilarityScore :: "string \<Rightarrow> string \<Rightarrow> rat" where
  "commentSimilarityScore a b =
     (if a = [] \<or> b = [] then 0
      else let ca = clean a; cb = clean b in
        if ca = [] \<or> cb = [] then 0
        else if ca = cb \<or> str_includes ca cb \<or> str_includes cb ca then 1
        else jaccard (set (tokenize ca)) (set (tokenize cb)))"

section \<open>The heuristic annotation matcher (automationService.ts)\<close>

text \<open>
  The matcher reads only the quote and the comment of an annotation. A match carries the
  indices into both lists, the reason string and the two scores. The source's sentinel
  \<open>bestIdx = -1\<close> is \<open>None\<close> here.
\<close>

record annotation_text =
  quote :: string
  comment :: string

record index_match =
  aIndex :: nat
  bIndex :: nat
  reason :: string

record annotation_match = index_match +
  quoteScore :: rat
  commentScore :: rat

record best =
  bestIdx :: "nat option"
  bestScore :: rat
  bestQuote :: rat
  bestComment :: rat
  bestReason :: string

definition considerB ::
  "'a annotation_text_scheme \<Rightarrow> nat set \<Rightarrow> best \<Rightarrow> nat \<times> 'b annotation_text_scheme \<Rightarrow> best" where
  \<comment> \<open>the body of the inner \<open>annsB.forEach\<close>\<close>
  "considerB annA usedB bst p =
     (case p of (idxB, annB) \<Rightarrow>
        if idxB \<in> usedB then bst
        else let qScore = quoteOverlapScore (quote annA) (quote annB) in
          if qScore < 35 / 100 then bst
          else let cScore = commentSimilarityScore (comment annA) (comment annB);
                   combined = qScore * (65 / 100) + cScore * (35 / 100) in
            if combined > bestScore bst
            then \<lparr>bestIdx = Some idxB, bestScore = combined, bestQuote = qScore,
                  bestComment = cScore,
                  bestReason = ''Quote overlap '' @ percent qScore
                     @ ''%, comment similarity '' @ percent cScore @ ''%''\<rparr>
            else bst)"

definition bestForA ::
  "'a annotation_text_scheme \<Rightarrow> nat set \<Rightarrow> 'b annotation_text_scheme list \<Rightarrow> best" where
  "bestForA annA usedB annsB =
     foldl (considerB annA usedB)
       \<lparr>bestIdx = None, bestScore = 0, bestQuote = 0, bestComment = 0, bestReason = []\<rparr>
       (enumerate 0 annsB)"

definition matchStep ::
  "'b annotation_text_scheme list \<Rightarrow> annotation_match list \<times> nat set
     \<Rightarrow> nat \<times> 'a annotation_text_scheme \<Rightarrow> annotation_match list \<times> nat set" where
  \<comment> \<open>the body of the outer \<open>annsA.forEach\<close>, on the pair (matches, usedB)\<close>
  "matchStep annsB st p =
     (case (st, p) of ((matches, usedB), (idxA, annA)) \<Rightarrow>
        let bst = bestForA annA usedB annsB in
        case bestIdx bst of
          None \<Rightarrow> (matches, usedB)
        | Some j \<Rightarrow>
            (matches @ [\<lparr>aIndex = idxA, bIndex = j, reason = bestReason bst,
                          quoteScore = bestQuote bst, commentScore = bestComment bst\<rparr>],
             insert j usedB))"

definition fallbackAnnotationMatches ::
  "'a annotation_text_scheme list \<Rightarrow> 'b annotation_text_scheme list \<Rightarrow> annotation_match list" where
  "fallbackAnnotationMatches annsA annsB =
     fst (foldl (matchStep annsB) ([], {}) (enumerate 0 annsA))"

text \<open>
  Two predicates for the proofs about the matcher: what the inner loop keeps true of its
  best candidate, and what the outer loop keeps true of its list of matches.
\<close>

definition eligible ::
  "'a annotation_text_scheme \<Rightarrow> nat set \<Rightarrow> 'b annotation_text_scheme list \<Rightarrow> best \<Rightarrow> bool" where
  "eligible annA usedB annsB bst =
     (case bestIdx bst of None \<Rightarrow> True
      | Some j \<Rightarrow> j \<notin> usedB \<and> j < length annsB
          \<and> bestQuote bst = quoteOverlapScore (quote annA) (quote (annsB ! j))
          \<and> bestComment bst = commentSimilarityScore (comment annA) (comment (annsB ! j))
          \<and> 35 / 100 \<le> bestQuote bst)"

definition matching ::
  "'a annotation_text_scheme list \<Rightarrow> 'b annotation_text_scheme list
     \<Rightarrow> annotation_match list \<Rightarrow> bool" where
  "matching annsA annsB ms =
     (distinct (map aIndex ms) \<and> distinct (map bIndex ms)
      \<and> (\<forall>m\<in>set ms. aIndex m < length annsA \<and> bIndex m < length annsB
            \<and> 35 / 100 \<le> quoteOverlapScore (quote (annsA ! aIndex m)) (quote (annsB ! bIndex m))
            \<and> quoteScore m = quoteOverlapScore (quote (annsA ! aIndex m)) (quote (annsB ! bIndex m))
            \<and> commentScore m
                = commentSimilarityScore (comment (annsA ! aIndex m)) (comment (annsB ! bIndex m))))"

section \<open>Diff statistics (diffService.ts)\<close>

text \<open>
  A part of a diff: its text, and whether it was added or removed (neither: unchanged).
  The word-level differ \<open>diffWords\<close> comes from the package \<open>diff\<close>; the functions of
  diffService.ts take it as the parameter \<open>dw\<close>.
\<close>

record diff_part =
  pvalue :: string
  added :: bool
  removed :: bool

record diff_stats =
  additions :: nat
  deletions :: nat
  addedLength :: nat
  removedLength :: nat
  changeRatio :: rat





text \<open>
  Modelled from the spec: the word-level differ, which is the function \<open>diffWords\<close> of the
  package \<open>diff\<close> and not part of the sources. The spec assumes it "as a standard LCS-style
  primitive": the texts are cut into words and runs of white space, a longest common
  subsequence of the two token lists is kept, and neighbouring tokens of one kind are
  joined into one part, a removal before an addition.
\<close>

datatype edit = Common | Added | Removed

fun wordRuns :: "string \<Rightarrow> string \<Rightarrow> string list" where
  "wordRuns cur [] = (if cur = [] then [] else [cur])"
| "wordRuns cur (c # cs) =
     (if cur = [] \<or> isSpace (last cur) = isSpace c then wordRuns (cur @ [c]) cs
      else cur # wordRuns [c] cs)"

definition commonCount :: "(edit \<times> string) list \<Rightarrow> nat" where
  "commonCount es = length (filter (\<lambda>e. fst e = Common) es)"

fun lcsEdits :: "string list \<Rightarrow> string list \<Rightarrow> (edit \<times> string) list" where
  "lcsEdits [] ys = map (Pair Added) ys"
| "lcsEdits xs [] = map (Pair Removed) xs"
| "lcsEdits (x # xs) (y # ys) =
     (if x = y then (Common, x) # lcsEdits xs ys
      else let del = (Removed, x) # lcsEdits xs (y # ys);
               ins = (Added, y) # lcsEdits (x # xs) ys
           in if commonCount ins > commonCount del then ins else del)"

definition editPart :: "edit \<Rightarrow> string \<Rightarrow> diff_part" where
  "editPart e v = \<lparr>pvalue = v, added = (e = Added), removed = (e = Removed)\<rparr>"

fun mergeEdits :: "(edit \<times> string) list \<Rightarrow> diff_part list" where
  "mergeEdits [] = []"
| "mergeEdits ((e, v) # rest) =
     (case mergeEdits rest of
        [] \<Rightarrow> [editPart e v]
      | p # ps \<Rightarrow>
          if added p = (e = Added) \<and> removed p = (e = Removed)
          then p\<lparr>pvalue := v @ pvalue p\<rparr> # ps
          else editPart e v # p # ps)"

definition diffWordsLCS :: "string \<Rightarrow> string \<Rightarrow> diff_part list" where
  "diffWordsLCS oldStr newStr = mergeEdits (lcsEdits (wordRuns [] oldStr) (wordRuns [] newStr))"


section \<open>The step-segment parser (geminiService.ts)\<close>

text \<open>
  The regular expressions of the parser are written out as matching functions. Every
  quantifier in them is followed by a character it cannot match, so the greedy match is
  the only one and no backtracking is modelled.
\<close>

fun matchLit :: "string \<Rightarrow> string \<Rightarrow> string option" where
  \<comment> \<open>the literal \<open>lit\<close> (in upper case) at the start of the string, under the flag \<open>i\<close>;
      the result is the rest of the string\<close>
  "matchLit [] s = Some s"
| "matchLit (l # ls) [] = None"
| "matchLit (l # ls) (c # cs) = (if toUpperChar c = l then matchLit ls cs else None)"

definition matchLoose :: "string \<Rightarrow> string \<Rightarrow> string option" where
  \<comment> \<open>\<open>\s*\<close> and the literal\<close>
  "matchLoose lit s = matchLit lit (dropWhile isSpace s)"

function ensureBracket :: "string \<Rightarrow> string \<Rightarrow> bool \<Rightarrow> string \<Rightarrow> string" where
  \<comment> \<open>\<open>normalized.replace(/(^|[^\[])\s*(lit)/gi, (_match, prefix) => prefix + tag)\<close>; the
      flag says that the scan is at the start of the string, where \<open>^\<close> matches\<close>
  "ensureBracket lit tag atStart [] = []"
| "ensureBracket lit tag atStart (c # cs) =
     (case (if atStart then matchLoose lit (c # cs) else None) of
        Some rest \<Rightarrow> tag @ ensureBracket lit tag False rest
      | None \<Rightarrow>
          (case (if c \<noteq> CHR ''['' then matchLoose lit cs else None) of
             Some rest \<Rightarrow> c # tag @ ensureBracket lit tag False rest
           | None \<Rightarrow> c # ensureBracket lit tag False cs))"
  by pat_completeness auto
termination
proof (relation "measure (\<lambda>(lit, tag, atStart, s). 2 * length s + (if atStart then 1 else 0))")
  have lit: "length r \<le> length s" if "matchLit l s = Some r" for l s r
    using that by (induction l s rule: matchLit.induct) (auto split: if_splits)
  have loose: "length r \<le> length s" if "matchLoose l s = Some r" for l s r
    using lit[OF that[unfolded matchLoose_def]] length_dropWhile_le[of isSpace s] by simp
  show "wf (measure (\<lambda>(lit, tag, atStart, s). 2 * length s + (if atStart then 1 else 0)))"
    by simp
  show "((lit, tag, False, rest), (lit, tag, atStart, c # cs))
          \<in> measure (\<lambda>(lit, tag, atStart, s). 2 * length s + (if atStart then 1 else 0))"
    if "(if atStart then matchLoose lit (c # cs) else None) = Some rest"
    for lit tag atStart c cs rest
    using that loose[of lit "c # cs" rest] by (auto split: if_splits)
  show "((lit, tag, False, rest), (lit, tag, atStart, c # cs))
          \<in> measure (\<lambda>(lit, tag, atStart, s). 2 * length s + (if atStart then 1 else 0))"
    if "(if c \<noteq> CHR ''['' then matchLoose lit cs else None) = Some rest"
    for lit tag atStart c cs rest
    using that loose[of lit cs rest] by (auto split: if_splits)
  show "((lit, tag, False, cs), (lit, tag, atStart, c # cs))
          \<in> measure (\<lambda>(lit, tag, atStart, s). 2 * length s + (if atStart then 1 else 0))"
    for lit tag atStart c cs
    by simp
qed

definition normalizeStepTags :: "string \<Rightarrow> string" where
  "normalizeStepTags input =
     ensureBracket ''/TEXT]]'' ''[[/TEXT]]'' True
       (ensureBracket ''TEXT]]'' ''[[TEXT]]'' True
         (ensureBracket ''/THOUGHT]]'' ''[[/THOUGHT]]'' True
           (ensureBracket ''THOUGHT]]'' ''[[THOUGHT]]'' True input)))"

datatype tag_name = THOUGHT | TEXT

definition matchName :: "string \<Rightarrow> (tag_name \<times> string) option" where
  \<comment> \<open>\<open>(THOUGHT|TEXT)\<close>\<close>
  "matchName s =
     (case matchLit ''THOUGHT'' s of
        Some r \<Rightarrow> Some (THOUGHT, r)
      | None \<Rightarrow> (case matchLit ''TEXT'' s of Some r \<Rightarrow> Some (TEXT, r) | None \<Rightarrow> None))"

definition matchTag :: "string \<Rightarrow> (bool \<times> tag_name \<times> string) option" where
  \<comment> \<open>\<open>/\[\[\s*(\/)?\s*(THOUGHT|TEXT)\s*\]\]/gi\<close> at the start of the string: whether
      the tag is a closing one, its name, and the rest of the string\<close>
  "matchTag s =
     (case matchLit ''[['' s of
        None \<Rightarrow> None
      | Some r1 \<Rightarrow>
          (let r2 = dropWhile isSpace r1;
               isClosing = (r2 \<noteq> [] \<and> hd r2 = CHR ''/'');
               r3 = dropWhile isSpace (if isClosing then tl r2 else r2)
           in case matchName r3 of
                None \<Rightarrow> None
              | Some (tagName, r4) \<Rightarrow>
                  (case matchLit '']]'' (dropWhile isSpace r4) of
                     None \<Rightarrow> None
                   | Some r5 \<Rightarrow> Some (isClosing, tagName, r5))))"

fun findTag :: "string \<Rightarrow> string \<Rightarrow> string \<times> (bool \<times> tag_name \<times> string) option" where
  \<comment> \<open>\<open>tagRegex.exec\<close>: the text before the next tag (the chunk), and the tag\<close>
  "findTag chunk [] = (chunk, None)"
| "findTag chunk (c # cs) =
     (case matchTag (c # cs) of
        Some t \<Rightarrow> (chunk, Some t)
      | None \<Rightarrow> findTag (chunk @ [c]) cs)"

record segment =
  thought :: string
  segText :: string

record parser =
  segments :: "segment list"
  currentThought :: string
  currentText :: string
  readingThought :: bool
  readingText :: bool

definition flushSegment :: "parser \<Rightarrow> parser" where
  "flushSegment st =
     (let th = trim (currentThought st); tx = trim (currentText st) in
      \<lparr>segments = (if th \<noteq> [] \<or> tx \<noteq> [] then segments st @ [\<lparr>thought = th, segText = tx\<rparr>]
                   else segments st),
       currentThought = [], currentText = [], readingThought = False, readingText = False\<rparr>)"

definition addChunk :: "string \<Rightarrow> parser \<Rightarrow> parser" where
  "addChunk chunk st =
     (if readingThought st then st\<lparr>currentThought := currentThought st @ chunk\<rparr>
      else if readingText st then st\<lparr>currentText := currentText st @ chunk\<rparr>
      else st)"

definition onTag :: "bool \<Rightarrow> tag_name \<Rightarrow> parser \<Rightarrow> parser" where
  \<comment> \<open>the loop body after the chunk has been added\<close>
  "onTag isClosing tagName st =
     (if \<not> isClosing then
        (case tagName of
           THOUGHT \<Rightarrow>
             (let st1 = (if readingText st \<or> trim (currentText st) \<noteq> [] then flushSegment st else st)
              in st1\<lparr>readingThought := True, readingText := False\<rparr>)
         | TEXT \<Rightarrow>
             (let st1 = (if readingText st \<and> (trim (currentThought st) \<noteq> [] \<or> trim (currentText st) \<noteq> [])
                         then flushSegment st else st);
                  st2 = (if readingThought st1 \<and> trim (currentText st1) = []
                         then st1\<lparr>readingThought := False\<rparr> else st1)
              in st2\<lparr>readingText := True\<rparr>))
      else
        (case tagName of
           THOUGHT \<Rightarrow> st\<lparr>readingThought := False\<rparr>
         | TEXT \<Rightarrow>
             if readingThought st \<and> \<not> readingText st \<and> trim (currentText st) = []
             then st\<lparr>readingThought := False\<rparr>
             else if readingText st then flushSegment (st\<lparr>readingText := False\<rparr>)
             else if trim (currentThought st) \<noteq> [] \<or> trim (currentText st) \<noteq> [] then flushSegment st
             else st))"

definition finish :: "string \<Rightarrow> parser \<Rightarrow> segment list" where
  \<comment> \<open>after the last tag: the remainder is added, and an open segment is flushed\<close>
  "finish remainder st =
     (let st1 = addChunk remainder st;
          st2 = (if trim (currentThought st1) \<noteq> [] \<or> trim (currentText st1) \<noteq> []
                 then flushSegment st1 else st1)
      in segments st2)"

function parseLoop :: "parser \<Rightarrow> string \<Rightarrow> segment list" where
  "parseLoop st s =
     (case findTag [] s of
        (chunk, None) \<Rightarrow> finish chunk st
      | (chunk, Some (isClosing, tagName, rest)) \<Rightarrow>
          parseLoop (onTag isClosing tagName (addChunk chunk st)) rest)"
  by pat_completeness auto
termination
proof (relation "measure (\<lambda>(st, s). length s)")
  have lit: "length r \<le> length s" if "matchLit l s = Some r" for l s r
    using that by (induction l s rule: matchLit.induct) (auto split: if_splits)
  have name: "length r \<le> length s" if "matchName s = Some (n, r)" for s n r
    using that lit[of "''THOUGHT''" s r] lit[of "''TEXT''" s r]
    by (auto simp: matchName_def split: option.splits)
  have tag: "length r < length s" if "matchTag s = Some (b, n, r)" for s b n r
  proof -
    from that obtain r1 r4 where r1: "matchLit ''[['' s = Some r1"
      and r4: "matchName (dropWhile isSpace
                 (if dropWhile isSpace r1 \<noteq> [] \<and> hd (dropWhile isSpace r1) = CHR ''/''
                  then tl (dropWhile isSpace r1) else dropWhile isSpace r1)) = Some (n, r4)"
      and r: "matchLit '']]'' (dropWhile isSpace r4) = Some r"
      by (auto simp: matchTag_def Let_def split: option.splits)
    from r1 have "length r1 < length s"
      by (cases s; cases "tl s") (auto split: if_splits)
    moreover have "length r4 \<le> length r1"
      using name[OF r4] length_dropWhile_le[of isSpace r1]
        length_dropWhile_le[of isSpace "tl (dropWhile isSpace r1)"]
        length_dropWhile_le[of isSpace "dropWhile isSpace r1"]
      by (auto split: if_splits)
    moreover have "length r \<le> length r4"
      using lit[OF r] length_dropWhile_le[of isSpace r4] by simp
    ultimately show ?thesis by simp
  qed
  have find: "length r < length s" if "findTag chunk s = (ch, Some (b, n, r))" for chunk s ch b n r
    using that
  proof (induction s arbitrary: chunk)
    case Nil
    then show ?case by simp
  next
    case (Cons c cs)
    show ?case
    proof (cases "matchTag (c # cs)")
      case None
      with Cons.prems have "findTag (chunk @ [c]) cs = (ch, Some (b, n, r))" by simp
      from Cons.IH[OF this] show ?thesis by simp
    next
      case (Some t)
      with Cons.prems have "matchTag (c # cs) = Some (b, n, r)" by simp
      from tag[OF this] show ?thesis .
    qed
  qed
  show "wf (measure (\<lambda>(st, s). length s))" by simp
  show "((onTag isClosing tagName (addChunk chunk st), rest), (st, s)) \<in> measure (\<lambda>(st, s). length s)"
    if "(chunk, t) = findTag [] s" and "t = Some u" and "(isClosing, v) = u" and "(tagName, rest) = v"
    for st s chunk t u isClosing v tagName rest
    using find[of "[]" s chunk isClosing tagName rest] that by simp
qed

declare parseLoop.simps [simp del]

definition parseStepByStepSegments :: "string \<Rightarrow> segment list" where
  "parseStepByStepSegments input =
     (let normalized = normalizeStepTags input;
          segs = parseLoop
                   \<lparr>segments = [], currentThought = [], currentText = [],
                    readingThought = False, readingText = False\<rparr>
                   normalized
      in if segs = [] \<and> trim normalized \<noteq> []
         then [\<lparr>thought = [], segText = trim normalized\<rparr>]
         else segs)"

section \<open>The oracle, the callbacks and the state of a protocol execution\<close>

text \<open>
  Every oracle call of the program is a call of \<open>ai.models.generateContent\<close>. The model
  takes the replies of one execution as the function \<open>generateContent\<close> of the environment:
  its argument is the number of calls made before, and \<open>None\<close> is a call that rejects.
  The decoders stand for \<open>JSON.parse\<close> and the field accesses on its result, as each call
  site applies them. Prompts are built and sent but never read back by the program, so
  prompt assembly, resources and the prompt snapshots of a node are not part of the model;
  neither are time stamps. \<open>crypto.randomUUID()\<close> is a counter: it never returns an
  identifier twice.

  A procedure of the program is a function from the state (the two counters) to its
  result or the failure it raised, the events it produced in their order, and the new
  state. The events are the calls of the oracle with the role of the call site and whether
  the call was answered, the pacing delays, and the calls of the three callbacks
  \<open>onUpdateRun\<close>, \<open>onStatusChange\<close> and \<open>onLog\<close>. A log line is recorded by its kind and
  the step, pass or run number in it; the token counts the source formats into some lines,
  and the running totals it keeps for them, are left out. The iteration count and the run
  count of a configuration are integers.
\<close>

datatype generation_method = STANDARD | STEP_BY_STEP | REFINE_LOOP


datatype oracle_role = Generation | Evaluation | Highlighting | Judging | Commentary

datatype run_status = Running | Completed | Failed

datatype failure = OracleFailure | DecodeFailure

record token_usage =
  promptTokens :: nat
  outputTokens :: nat
  totalTokens :: nat

record response =
  responseText :: string
  usageMetadata :: "token_usage option"

record raw_annotation = annotation_text +
  level :: string
  sourceId :: "string option"
  sourceQuote :: "string option"

record annotation = raw_annotation +
  annId :: nat
  relatedVariant :: "string option"
  relatedQuote :: "string option"
  originHint :: "string option"
  author :: string

record raw_highlight =
  hType :: string
  hQuote :: string
  hComment :: string
  hRelatedVariant :: "string option"
  hRelatedQuote :: "string option"
  hSourceQuote :: "string option"

record raw_match =
  rawA :: "int option"
  rawB :: "int option"
  rawReason :: string

record call_usage =
  callModelId :: string
  callRole :: string
  callPromptTokens :: nat
  callOutputTokens :: nat
  callTotalTokens :: nat

record usage_meta =
  metaRunId :: string
  metaRunLabel :: string
  metaStepNumber :: nat
  metaIteration :: nat
  metaMethod :: generation_method

record step_token_usage =
  calls :: "call_usage list"
  aggregate :: token_usage
  meta :: usage_meta

record document =
  docId :: nat
  parentId :: "nat option"
  content :: string
  thoughts :: "string list"
  modelId :: string
  genMethod :: generation_method
  tokenUsage :: "step_token_usage option"
  runId :: "string option"
  runLabel :: "string option"
  diffStats :: "diff_stats option"
  annotations :: "annotation list"
  scores :: "(string \<times> rat) list"

datatype log_line =
  Generating generation_method | Evaluating | TokensStep nat | CumulativeTokens nat
| RefinementIteration nat | RunningStepByStep
| GeneratingBaseText | AnnotationPass nat | StartingVariant nat
| HighlightNotParsed | HighlightFailed | JudgeFailed
| CommentaryGenerated | CommentaryFailed | ReportReady
| StartingRun string nat | AllProtocolsFinished | CriticalError

datatype event =
  OracleCall oracle_role bool
| Delay rat
| StepAppended string document
| StatusChanged string run_status
| LogLine log_line

record env =
  generateContent :: "nat \<Rightarrow> response option"
  decodeEvaluation :: "string \<Rightarrow> (raw_annotation list \<times> (string \<times> rat option) list) option"
  decodeMatches :: "string \<Rightarrow> raw_match list"
  decodeVariants :: "string \<Rightarrow> (string \<times> raw_highlight list) list option"
  getRunIdByLabel :: "string \<Rightarrow> nat \<Rightarrow> string"
  diffWords :: "string \<Rightarrow> string \<Rightarrow> diff_part list"

record state =
  nextCall :: nat
  nextUuid :: nat

type_synonym 'a action = "state \<Rightarrow> (failure + 'a) \<times> event list \<times> state"

definition ret :: "'a \<Rightarrow> 'a action" where
  "ret x s = (Inr x, [], s)"

definition andThen :: "'a action \<Rightarrow> ('a \<Rightarrow> 'b action) \<Rightarrow> 'b action" where
  \<comment> \<open>sequencing: a failure of the first part skips the second, and keeps the events\<close>
  "andThen m f s =
     (case m s of
        (Inl e, evs, s') \<Rightarrow> (Inl e, evs, s')
      | (Inr x, evs, s') \<Rightarrow> (case f x s' of (r, evs', s'') \<Rightarrow> (r, evs @ evs', s'')))"


definition tryCatch :: "'a action \<Rightarrow> 'a action \<Rightarrow> 'a action" where
  \<comment> \<open>\<open>try { m } catch { handler }\<close>: what \<open>m\<close> did before it failed stays done\<close>
  "tryCatch m handler s =
     (case m s of
        (Inl e, evs, s') \<Rightarrow> (case handler s' of (r, evs', s'') \<Rightarrow> (r, evs @ evs', s''))
      | (Inr x, evs, s') \<Rightarrow> (Inr x, evs, s'))"

definition emit :: "event \<Rightarrow> unit action" where
  "emit e s = (Inr (), [e], s)"





definition delay :: "rat \<Rightarrow> unit action" where
  "delay ms = emit (Delay ms)"

definition callOracle :: "env \<Rightarrow> oracle_role \<Rightarrow> response action" where
  \<comment> \<open>\<open>await ai.models.generateContent(...)\<close>; the role names the call site\<close>
  "callOracle e role s =
     (let reply = generateContent e (nextCall s);
          s' = s\<lparr>nextCall := nextCall s + 1\<rparr>
      in case reply of
           None \<Rightarrow> (Inl OracleFailure, [OracleCall role False], s')
         | Some resp \<Rightarrow> (Inr resp, [OracleCall role True], s'))"

section \<open>The generation step (geminiService.ts, automationService.ts)\<close>


record generation_result =
  genText :: string
  genThoughts :: "string list"
  genUsage :: "token_usage option"


fun collapseNewlines :: "nat \<Rightarrow> string \<Rightarrow> string" where
  \<comment> \<open>\<open>replace(/\n{3,}/g, "\n\n")\<close>; the number counts the line feeds of the run the scan
      is in\<close>
  "collapseNewlines k [] = replicate (if 3 \<le> k then 2 else k) (CHR 0x0A)"
| "collapseNewlines k (c # cs) =
     (if c = CHR 0x0A then collapseNewlines (Suc k) cs
      else replicate (if 3 \<le> k then 2 else k) (CHR 0x0A) @ c # collapseNewlines 0 cs)"

fun joinWith :: "string \<Rightarrow> string list \<Rightarrow> string" where
  "joinWith sep [] = []"
| "joinWith sep [x] = x"
| "joinWith sep (x # y # ys) = x @ sep @ joinWith sep (y # ys)"

definition generateNarrative :: "env \<Rightarrow> oracle_role \<Rightarrow> generation_method \<Rightarrow> generation_result action" where
  \<comment> \<open>a rejected call is thrown again: it fails the procedure\<close>
  "generateNarrative e role gm =
     andThen (callOracle e role) (\<lambda>resp.
       let rawText = trim (responseText resp) in
       if gm = STEP_BY_STEP then
         (let segs = parseStepByStepSegments rawText;
              ths = filter (\<lambda>t. t \<noteq> []) (map thought segs);
              textSegments = filter (\<lambda>t. t \<noteq> []) (map segText segs);
              cleanedText =
                (if textSegments \<noteq> []
                 then trim (collapseNewlines 0 (joinWith [CHR 0x0A, CHR 0x0A] textSegments))
                 else trim rawText)
          in ret \<lparr>genText = cleanedText, genThoughts = ths, genUsage = usageMetadata resp\<rparr>)
       else ret \<lparr>genText = rawText, genThoughts = [], genUsage = usageMetadata resp\<rparr>)"










section \<open>The protocol runners (automationService.ts)\<close>




section \<open>Annotation comparison and the consistency report (automationService.ts)\<close>

definition cleanMatch :: "nat \<Rightarrow> nat \<Rightarrow> raw_match \<Rightarrow> index_match list" where
  \<comment> \<open>the integrity filter on one match of the judge: both indices integers and in range;
      an index that is not an integer is \<open>None\<close>\<close>
  "cleanMatch nA nB m =
     (case rawA m of
        None \<Rightarrow> []
      | Some a \<Rightarrow>
          (case rawB m of
             None \<Rightarrow> []
           | Some b \<Rightarrow>
               if 0 \<le> a \<and> 0 \<le> b \<and> a < int nA \<and> b < int nB
               then [\<lparr>aIndex = nat a, bIndex = nat b, reason = rawReason m\<rparr>]
               else []))"

definition matchAnnotationsWithGemini ::
  "env \<Rightarrow> 'a annotation_text_scheme list \<Rightarrow> 'b annotation_text_scheme list
     \<Rightarrow> (index_match list \<times> string option) action" where
  \<comment> \<open>the matches of the judge and the note; a rejected call is caught\<close>
  "matchAnnotationsWithGemini e annsA annsB =
     (if annsA = [] \<or> annsB = [] then ret ([], Some ''No annotations to compare.'')
      else tryCatch
        (andThen (generateNarrative e Judging STANDARD) (\<lambda>res.
           let cleaned = concat (map (cleanMatch (length annsA) (length annsB))
                                   (decodeMatches e (genText res)))
           in ret (cleaned, (case cleaned of [] \<Rightarrow> None | m # ms \<Rightarrow> Some (reason m)))))
        (andThen (emit (LogLine JudgeFailed)) (\<lambda>u.
           ret ([], Some ''Gemini comparison failed, fallback used.''))))"

record annotation_comparison =
  shared :: nat
  onlyA :: nat
  onlyB :: nat
  sharedFraction :: rat
  agreementNote :: string
  averageQuoteOverlap :: rat
  averageCommentSimilarity :: rat

definition quoteAt :: "'a annotation_text_scheme list \<Rightarrow> nat \<Rightarrow> string" where
  \<comment> \<open>\<open>anns[i]?.quote || ''\<close>\<close>
  "quoteAt anns i = (if i < length anns then quote (anns ! i) else [])"

definition commentAt :: "'a annotation_text_scheme list \<Rightarrow> nat \<Rightarrow> string" where
  "commentAt anns i = (if i < length anns then comment (anns ! i) else [])"

definition annotationMetrics ::
  "'a annotation_text_scheme list \<Rightarrow> 'b annotation_text_scheme list \<Rightarrow> index_match list
     \<Rightarrow> string \<Rightarrow> annotation_comparison" where
  \<comment> \<open>the part of \<open>compareAnnotations\<close> after the matches are chosen\<close>
  "annotationMetrics annsA annsB matches note =
     (let matchedB = set (map bIndex matches);
          sh = length matches;
          totalQuote = sum_list (map (\<lambda>m. quoteOverlapScore (quoteAt annsA (aIndex m))
                                             (quoteAt annsB (bIndex m))) matches);
          totalComment = sum_list (map (\<lambda>m. commentSimilarityScore (commentAt annsA (aIndex m))
                                             (commentAt annsB (bIndex m))) matches)
      in \<lparr>shared = sh,
          onlyA = nat (max (int (length annsA) - int sh) 0),
          onlyB = nat (max (int (length annsB) - int (card matchedB)) 0),
          sharedFraction =
            (if max (length annsA) (length annsB) > 0
             then of_nat sh / of_nat (max (length annsA) (length annsB)) else 0),
          agreementNote = note,
          averageQuoteOverlap = (if sh > 0 then toFixed 3 (totalQuote / of_nat sh) else 0),
          averageCommentSimilarity = (if sh > 0 then toFixed 3 (totalComment / of_nat sh) else 0)\<rparr>)"

definition firstReason :: "'m index_match_scheme list \<Rightarrow> string" where
  \<comment> \<open>\<open>matches[0]?.reason || ''\<close>\<close>
  "firstReason ms = (case ms of [] \<Rightarrow> [] | m # rest \<Rightarrow> reason m)"

definition compareAnnotations ::
  "env \<Rightarrow> 'a annotation_text_scheme list \<Rightarrow> 'b annotation_text_scheme list
     \<Rightarrow> annotation_comparison action" where
  "compareAnnotations e annsA annsB =
     (let fallback = fallbackAnnotationMatches annsA annsB in
      andThen (matchAnnotationsWithGemini e annsA annsB) (\<lambda>llmResult.
        if fst llmResult \<noteq> []
        then ret (annotationMetrics annsA annsB (fst llmResult)
                    (case snd llmResult of
                       Some n \<Rightarrow> if n \<noteq> [] then n else firstReason fallback
                     | None \<Rightarrow> firstReason fallback))
        else ret (annotationMetrics annsA annsB (map index_match.truncate fallback)
                    (firstReason fallback))))"



record text_pair =
  pairLabel :: string
  overlap :: rat
  lengthDelta :: nat
  styleDelta :: rat
  uniqueA :: nat
  uniqueB :: nat

record annotation_pair =
  annPairLabel :: string
  comparison :: annotation_comparison
  avgScoreDelta :: rat









definition judgeFindsNothing ::
  "env \<Rightarrow> 'a annotation_text_scheme list \<Rightarrow> 'b annotation_text_scheme list \<Rightarrow> state \<Rightarrow> bool" where
  \<comment> \<open>in this state the judge is not asked, or its call rejects, or none of the matches of
      its reply passes the integrity filter\<close>
  "judgeFindsNothing e annsA annsB s =
     (annsA = [] \<or> annsB = [] \<or>
      (case generateContent e (nextCall s) of
         None \<Rightarrow> True
       | Some resp \<Rightarrow>
           concat (map (cleanMatch (length annsA) (length annsB))
                     (decodeMatches e (trim (responseText resp)))) = []))"

section \<open>The entry point (automationService.ts)\<close>

















section \<open>Specifications of procedures\<close>

text \<open>
  \<open>emits m Q E\<close>: whenever \<open>m\<close> returns, \<open>Q\<close> holds of its result and its events; whenever
  it fails, \<open>E\<close> holds of its events. \<open>succeeds m\<close>: \<open>m\<close> never fails.
\<close>

definition emits :: "'a action \<Rightarrow> ('a \<Rightarrow> event list \<Rightarrow> bool) \<Rightarrow> (event list \<Rightarrow> bool) \<Rightarrow> bool" where
  "emits m Q E =
     (\<forall>s. case m s of (Inr x, evs, s') \<Rightarrow> Q x evs | (Inl f, evs, s') \<Rightarrow> E evs)"


definition published :: "event list \<Rightarrow> (string \<times> document) list" where
  \<comment> \<open>the nodes passed to \<open>onUpdateRun\<close>, with their run ids, in their order\<close>
  "published evs = concat (map (\<lambda>ev. case ev of StepAppended r d \<Rightarrow> [(r, d)] | _ \<Rightarrow> []) evs)"

definition oracleCalls :: "oracle_role \<Rightarrow> event list \<Rightarrow> nat" where
  \<comment> \<open>the number of calls of the oracle in one role\<close>
  "oracleCalls role evs =
     length (filter (\<lambda>ev. case ev of OracleCall r b \<Rightarrow> r = role | _ \<Rightarrow> False) evs)"


definition stepEvents :: "generation_method \<Rightarrow> rat \<Rightarrow> bool \<Rightarrow> nat option \<Rightarrow> event list" where
  \<comment> \<open>the events of a generation step that returns: whether the evaluation call was
      answered, and the step number in the token log line if there is one\<close>
  "stepEvents gm ms answered tokens =
     [LogLine (Generating gm), OracleCall Generation True, Delay ms,
      LogLine Evaluating, OracleCall Evaluation answered, Delay ms]
     @ (case tokens of None \<Rightarrow> [] | Some n \<Rightarrow> [LogLine (TokensStep n)])"





definition quiet :: "event list \<Rightarrow> bool" where
  \<comment> \<open>events without a published node and without a call of the generation oracle\<close>
  "quiet evs = (published evs = [] \<and> oracleCalls Generation evs = 0)"



section \<open>Pacing and failure, as properties of the events\<close>

fun pacedFrom :: "(oracle_role \<Rightarrow> bool) \<Rightarrow> bool \<Rightarrow> event list \<Rightarrow> bool" where
  \<comment> \<open>no oracle call is made while a call of one of the roles \<open>R\<close> is pending, that is,
      made with no delay after it yet\<close>
  "pacedFrom R pending [] = True"
| "pacedFrom R pending (OracleCall r b # evs) = (\<not> pending \<and> pacedFrom R (R r) evs)"
| "pacedFrom R pending (Delay ms # evs) = pacedFrom R False evs"
| "pacedFrom R pending (StepAppended rid d # evs) = pacedFrom R pending evs"
| "pacedFrom R pending (StatusChanged rid st # evs) = pacedFrom R pending evs"
| "pacedFrom R pending (LogLine l # evs) = pacedFrom R pending evs"

fun pendingAfter :: "(oracle_role \<Rightarrow> bool) \<Rightarrow> bool \<Rightarrow> event list \<Rightarrow> bool" where
  \<comment> \<open>whether a call of one of the roles \<open>R\<close> is pending after the events\<close>
  "pendingAfter R pending [] = pending"
| "pendingAfter R pending (OracleCall r b # evs) = pendingAfter R (R r) evs"
| "pendingAfter R pending (Delay ms # evs) = pendingAfter R False evs"
| "pendingAfter R pending (StepAppended rid d # evs) = pendingAfter R pending evs"
| "pendingAfter R pending (StatusChanged rid st # evs) = pendingAfter R pending evs"
| "pendingAfter R pending (LogLine l # evs) = pendingAfter R pending evs"


definition step_roles :: "oracle_role \<Rightarrow> bool" where
  \<comment> \<open>the two oracles of a generation step\<close>
  "step_roles r = (r = Generation \<or> r = Evaluation)"

definition calm :: "event list \<Rightarrow> bool" where
  \<comment> \<open>what a procedure that returns has done: its generation and evaluation calls are
      paced and none is pending, no generation call was rejected, and the critical error
      was not logged\<close>
  "calm evs =
     (pacedFrom step_roles False evs \<and> \<not> pendingAfter step_roles False evs
      \<and> OracleCall Generation False \<notin> set evs \<and> LogLine CriticalError \<notin> set evs)"


definition harmless :: "event \<Rightarrow> bool" where
  \<comment> \<open>the events of the analysis after the generation steps: calls of the highlighting,
      judging and commentary oracles, status changes and log lines other than the critical
      error\<close>
  "harmless ev =
     (case ev of
        OracleCall r b \<Rightarrow> r = Highlighting \<or> r = Judging \<or> r = Commentary
      | Delay ms \<Rightarrow> False
      | StepAppended rid d \<Rightarrow> False
      | StatusChanged rid st \<Rightarrow> True
      | LogLine l \<Rightarrow> l \<noteq> CriticalError)"



section \<open>Concrete inputs\<close>

text \<open>The inputs at which the theorems below are evaluated.\<close>

definition gondolaA :: "annotation_text list" where
  "gondolaA = [\<lparr>quote = ''the gondola drifted'', comment = ''adds invented detail''\<rparr>]"

definition gondolaB :: "annotation_text list" where
  "gondolaB = [\<lparr>quote = ''the gondola drifted slowly'', comment = ''invents an extra detail''\<rparr>]"



definition steadyReply :: response where
  "steadyReply =
     \<lparr>responseText = ''Venice at dawn. The gondola drifted. '',
      usageMetadata = Some \<lparr>promptTokens = 10, outputTokens = 20, totalTokens = 30\<rparr>\<rparr>"

definition steadyEnv :: env where
  \<comment> \<open>an oracle that always answers, the same text; every evaluation finds one annotation\<close>
  "steadyEnv =
     \<lparr>generateContent = (\<lambda>n. Some steadyReply),
      decodeEvaluation = (\<lambda>t. Some ([\<lparr>quote = ''The gondola drifted'', comment = ''invented detail'',
                                           level = ''Accuracy'', sourceId = None, sourceQuote = None\<rparr>],
                                        [(''Accuracy'', Some 80)])),
      decodeMatches = (\<lambda>t. []),
      decodeVariants = (\<lambda>t. None),
      getRunIdByLabel = (\<lambda>l i. l @ ''#'' @ showNat i),
      diffWords = diffWordsLCS\<rparr>"



definition start :: state where
  "start = \<lparr>nextCall = 0, nextUuid = 0\<rparr>"

definition silentJudgeEnv :: env where
  \<comment> \<open>the judge answers with a match whose indices are out of range\<close>
  "silentJudgeEnv =
     steadyEnv\<lparr>decodeMatches := (\<lambda>t. [\<lparr>rawA = Some 7, rawB = Some 0, rawReason = ''same issue''\<rparr>])\<rparr>"

section \<open>Properties\<close>

subsection \<open>The lexical scores and the heuristic matcher\<close>

lemma jaccard_commute: "jaccard a b = jaccard b a"
  by (simp add: jaccard_def Int_commute Un_commute)

lemma quoteOverlapScore_commute: "quoteOverlapScore a b = quoteOverlapScore b a"
  by (auto simp: quoteOverlapScore_def jaccard_commute)

text \<open>
  Claim C7, as the spec states it: \<open>quoteOverlapScore\<close> is symmetric, and is 1 whenever
  one quote contains the other. The second half fails where one quote is empty: the empty
  string is contained in every string, and the guard \<open>if (!a || !b) return 0\<close> answers 0
  first.
\<close>

theorem quoteOverlapScore_empty_quote_counterexample:
  "str_includes ''x'' [] \<and> quoteOverlapScore ''x'' [] \<noteq> 1"
  by (simp add: str_includes_def quoteOverlapScore_def)

text \<open>
  Claim C7, amended: \<open>quoteOverlapScore\<close> is symmetric for all quotes, and it is 1
  whenever both quotes are non-empty and one contains the other.
\<close>

theorem quoteOverlapScore_symmetric_containment:
  "quoteOverlapScore a b = quoteOverlapScore b a
   \<and> (a \<noteq> [] \<and> b \<noteq> [] \<and> (str_includes a b \<or> str_includes b a) \<longrightarrow> quoteOverlapScore a b = 1)"
  by (simp add: quoteOverlapScore_commute) (simp add: quoteOverlapScore_def)

theorem quoteOverlapScore_symmetric_containment_witness:
  "quoteOverlapScore ''the gondola drifted'' ''gondola'' = quoteOverlapScore ''gondola'' ''the gondola drifted''
   \<and> str_includes ''the gondola drifted'' ''gondola''
   \<and> quoteOverlapScore ''the gondola drifted'' ''gondola'' = 1"
proof -
  have inc: "str_includes ''the gondola drifted'' ''gondola''"
    by (simp add: str_includes_def sublist_Cons_right)
  with quoteOverlapScore_symmetric_containment[of "''the gondola drifted''" "''gondola''"]
  show ?thesis by simp
qed

lemma considerB_eligible:
  assumes "eligible annA usedB annsB bst" and "i < length annsB" and "annsB ! i = b"
  shows "eligible annA usedB annsB (considerB annA usedB bst (i, b))"
  using assms by (auto simp: considerB_def eligible_def Let_def split: option.splits)

lemma foldl_considerB_eligible:
  assumes "\<forall>p\<in>set ps. fst p < length annsB \<and> annsB ! fst p = snd p"
    and "eligible annA usedB annsB bst"
  shows "eligible annA usedB annsB (foldl (considerB annA usedB) bst ps)"
  using assms
proof (induction ps arbitrary: bst)
  case Nil
  then show ?case by simp
next
  case (Cons p ps)
  obtain i b where p: "p = (i, b)" by (cases p)
  with Cons.prems have "eligible annA usedB annsB (considerB annA usedB bst p)"
    by (simp add: considerB_eligible)
  with Cons show ?case by simp
qed

lemma enumerate_nth: "\<forall>p\<in>set (enumerate 0 xs). fst p < length xs \<and> xs ! fst p = snd p"
  by (auto simp: in_set_enumerate_eq)

lemma bestForA_eligible: "eligible annA usedB annsB (bestForA annA usedB annsB)"
  unfolding bestForA_def
  by (rule foldl_considerB_eligible[OF enumerate_nth]) (simp add: eligible_def)

lemma matchStep_matching:
  assumes "matching annsA annsB ms" and "usedB = bIndex ` set ms"
    and "i < length annsA" and "annsA ! i = a" and "i \<notin> aIndex ` set ms"
    and "matchStep annsB (ms, usedB) (i, a) = (ms', usedB')"
  shows "matching annsA annsB ms' \<and> usedB' = bIndex ` set ms' \<and> aIndex ` set ms' \<subseteq> insert i (aIndex ` set ms)"
proof (cases "bestIdx (bestForA a usedB annsB)")
  case None
  with assms show ?thesis by (auto simp: matchStep_def)
next
  case (Some j)
  from bestForA_eligible[of a usedB annsB] Some
  have j: "j \<notin> usedB" "j < length annsB"
    "35 / 100 \<le> quoteOverlapScore (quote a) (quote (annsB ! j))"
    "bestQuote (bestForA a usedB annsB) = quoteOverlapScore (quote a) (quote (annsB ! j))"
    "bestComment (bestForA a usedB annsB) = commentSimilarityScore (comment a) (comment (annsB ! j))"
    by (auto simp: eligible_def)
  from assms(6) Some have ms': "ms' = ms @ [\<lparr>aIndex = i, bIndex = j,
      reason = bestReason (bestForA a usedB annsB),
      quoteScore = bestQuote (bestForA a usedB annsB),
      commentScore = bestComment (bestForA a usedB annsB)\<rparr>]"
    and used': "usedB' = insert j usedB"
    by (auto simp: matchStep_def Let_def)
  from assms(1-5) j show ?thesis
    unfolding ms' used' matching_def by auto
qed

lemma foldl_matchStep_matching:
  assumes "\<forall>p\<in>set ps. fst p < length annsA \<and> annsA ! fst p = snd p"
    and "distinct (map fst ps)"
    and "matching annsA annsB ms" and "usedB = bIndex ` set ms"
    and "aIndex ` set ms \<inter> fst ` set ps = {}"
  shows "matching annsA annsB (fst (foldl (matchStep annsB) (ms, usedB) ps))"
  using assms
proof (induction ps arbitrary: ms usedB)
  case Nil
  then show ?case by simp
next
  case (Cons p ps)
  obtain i a where p: "p = (i, a)" by (cases p)
  obtain ms' usedB' where st: "matchStep annsB (ms, usedB) (i, a) = (ms', usedB')"
    by (cases "matchStep annsB (ms, usedB) (i, a)")
  from Cons.prems p have "i < length annsA" "annsA ! i = a" "i \<notin> aIndex ` set ms"
    by auto
  from matchStep_matching[OF Cons.prems(3,4) this st]
  have m: "matching annsA annsB ms'" and u: "usedB' = bIndex ` set ms'"
    and sub: "aIndex ` set ms' \<subseteq> insert i (aIndex ` set ms)" by auto
  from Cons.prems p have ni: "i \<notin> fst ` set ps"
    and d0: "aIndex ` set ms \<inter> fst ` set ps = {}" by auto
  from sub ni d0 have disj: "aIndex ` set ms' \<inter> fst ` set ps = {}" by blast
  from Cons.prems have "\<forall>p\<in>set ps. fst p < length annsA \<and> annsA ! fst p = snd p"
    "distinct (map fst ps)" by auto
  from Cons.IH[OF this m u disj] show ?case by (simp add: p st)
qed

lemma fallback_matching: "matching annsA annsB (fallbackAnnotationMatches annsA annsB)"
  unfolding fallbackAnnotationMatches_def
  by (rule foldl_matchStep_matching[OF enumerate_nth])
     (auto simp: matching_def)

lemma distinct_bounded_length:
  assumes "distinct (map f ms)" and "\<forall>m\<in>set ms. f m < (n::nat)"
  shows "length ms \<le> n"
proof -
  have "length ms = card (set (map f ms))"
    using assms(1) by (metis distinct_card length_map)
  also have "\<dots> \<le> card {..<n}"
    using assms(2) by (intro card_mono) auto
  finally show ?thesis by simp
qed

text \<open>
  Claim C9: the heuristic matcher returns a one-to-one partial matching. The \<open>aIndex\<close>
  values are pairwise distinct and index \<open>annsA\<close>, the \<open>bIndex\<close> values are pairwise
  distinct and index \<open>annsB\<close>, every matched pair has a quote overlap of at least 0.35,
  and there are at most \<open>min |A| |B|\<close> matches.
\<close>

theorem fallback_one_to_one:
  "distinct (map aIndex (fallbackAnnotationMatches annsA annsB))
   \<and> distinct (map bIndex (fallbackAnnotationMatches annsA annsB))
   \<and> (\<forall>m\<in>set (fallbackAnnotationMatches annsA annsB).
         aIndex m < length annsA \<and> bIndex m < length annsB
         \<and> 35 / 100 \<le> quoteOverlapScore (quote (annsA ! aIndex m)) (quote (annsB ! bIndex m)))
   \<and> length (fallbackAnnotationMatches annsA annsB) \<le> min (length annsA) (length annsB)"
proof -
  let ?ms = "fallbackAnnotationMatches annsA annsB"
  have m: "matching annsA annsB ?ms" by (rule fallback_matching)
  then have "length ?ms \<le> length annsA" "length ?ms \<le> length annsB"
    by (auto simp: matching_def intro: distinct_bounded_length)
  with m show ?thesis by (simp add: matching_def)
qed

theorem fallback_one_to_one_witness:
  "map aIndex (fallbackAnnotationMatches gondolaA gondolaB) = [0]
   \<and> map bIndex (fallbackAnnotationMatches gondolaA gondolaB) = [0]
   \<and> distinct (map bIndex (fallbackAnnotationMatches gondolaA gondolaB))
   \<and> length (fallbackAnnotationMatches gondolaA gondolaB) \<le> min (length gondolaA) (length gondolaB)"
proof -
  have a: "map aIndex (fallbackAnnotationMatches gondolaA gondolaB) = [0]" by code_simp
  have b: "map bIndex (fallbackAnnotationMatches gondolaA gondolaB) = [0]" by code_simp
  from a b fallback_one_to_one[of gondolaA gondolaB] show ?thesis by simp
qed

subsection \<open>Diff statistics\<close>











subsection \<open>The step-segment parser\<close>

lemma toUpperChar_bracket [simp]:
  "(toUpperChar c = CHR '']'') = (c = CHR '']'')" "(toUpperChar c = CHR ''['') = (c = CHR ''['')"
  "(CHR '']'' = toUpperChar c) = (c = CHR '']'')" "(CHR ''['' = toUpperChar c) = (c = CHR ''['')"
  by (auto simp: toUpperChar_def split: option.splits if_splits)

lemma trim_Nil [simp]: "trim [] = []"
  by (simp add: trim_def)

























text \<open>
  The four replacements of \<open>normalizeStepTags\<close> also apply to a well-formed closing tag:
  in \<open>[[/THOUGHT]]\<close> the slash is a character other than \<open>[\<close> before \<open>THOUGHT]]\<close>, so
  the first replacement rewrites the tag to \<open>[[/[[THOUGHT]]\<close>, which the parser reads as
  the text \<open>[[/\<close> and an opening tag.
\<close>

lemma normalizeStepTags_closing_tag:
  "normalizeStepTags ''[[THOUGHT]]t[[/THOUGHT]][[TEXT]]x[[/TEXT]]''
     = ''[[THOUGHT]]t[[/[[THOUGHT]][[TEXT]]x[[/[[TEXT]]''
   \<and> parseStepByStepSegments ''[[THOUGHT]]t[[/THOUGHT]][[TEXT]]x[[/TEXT]]''
     = [\<lparr>thought = ''t[[/'', segText = ''x[[/''\<rparr>]"
  by code_simp




subsection \<open>Rules for the specifications of procedures\<close>






lemma emits_emit: "Q () [ev] \<Longrightarrow> emits (emit ev) Q E"
  by (simp add: emits_def emit_def)


lemma emits_delay: "Q () [Delay ms] \<Longrightarrow> emits (delay ms) Q E"
  by (simp add: delay_def emits_emit)




































lemma published_simps [simp]:
  "published [] = []"
  "published (evs @ evs') = published evs @ published evs'"
  "published (StepAppended r d # evs) = (r, d) # published evs"
  "published (OracleCall role b # evs) = published evs"
  "published (Delay ms # evs) = published evs"
  "published (StatusChanged r st # evs) = published evs"
  "published (LogLine l # evs) = published evs"
  by (simp_all add: published_def)

lemma published_stepEvents [simp]: "published (stepEvents gm ms b t) = []"
  by (simp add: stepEvents_def split: option.splits)



lemma oracleCalls_simps [simp]:
  "oracleCalls role [] = 0"
  "oracleCalls role (evs @ evs') = oracleCalls role evs + oracleCalls role evs'"
  "oracleCalls role (OracleCall r b # evs) = (if r = role then 1 else 0) + oracleCalls role evs"
  "oracleCalls role (StepAppended rid d # evs) = oracleCalls role evs"
  "oracleCalls role (Delay ms # evs) = oracleCalls role evs"
  "oracleCalls role (StatusChanged rid st # evs) = oracleCalls role evs"
  "oracleCalls role (LogLine l # evs) = oracleCalls role evs"
  by (simp_all add: oracleCalls_def)

lemma oracleCalls_stepEvents [simp]: "oracleCalls Generation (stepEvents gm ms b t) = 1"
  by (simp add: stepEvents_def split: option.splits)

lemma quiet_simps [simp]:
  "quiet []"
  "quiet (evs @ evs') = (quiet evs \<and> quiet evs')"
  "quiet (OracleCall r b # evs) = (r \<noteq> Generation \<and> quiet evs)"
  "quiet (StepAppended rid d # evs) = False"
  "quiet (Delay ms # evs) = quiet evs"
  "quiet (StatusChanged rid st # evs) = quiet evs"
  "quiet (LogLine l # evs) = quiet evs"
  by (auto simp: quiet_def)


subsection \<open>Convergence runs\<close>









subsection \<open>Annotation comparison\<close>

lemma matchAnnotationsWithGemini_nothing:
  assumes "judgeFindsNothing e annsA annsB s"
  shows "\<exists>n evs s'. matchAnnotationsWithGemini e annsA annsB s = (Inr ([], n), evs, s')"
  using assms
  by (auto simp: judgeFindsNothing_def matchAnnotationsWithGemini_def tryCatch_def andThen_def
      generateNarrative_def callOracle_def ret_def emit_def Let_def split: option.splits)

lemma compareAnnotations_nothing:
  assumes "judgeFindsNothing e annsA annsB s"
  shows "fst (compareAnnotations e annsA annsB s)
           = Inr (annotationMetrics annsA annsB
                    (map index_match.truncate (fallbackAnnotationMatches annsA annsB))
                    (firstReason (fallbackAnnotationMatches annsA annsB)))"
proof -
  from matchAnnotationsWithGemini_nothing[OF assms] obtain n evs s'
    where "matchAnnotationsWithGemini e annsA annsB s = (Inr ([], n), evs, s')" by blast
  then show ?thesis by (simp add: compareAnnotations_def andThen_def ret_def Let_def)
qed

lemma fallback_scores:
  assumes "m \<in> set (fallbackAnnotationMatches annsA annsB)"
  shows "quoteOverlapScore (quoteAt annsA (aIndex m)) (quoteAt annsB (bIndex m)) = quoteScore m"
    and "commentSimilarityScore (commentAt annsA (aIndex m)) (commentAt annsB (bIndex m)) = commentScore m"
  using fallback_matching[of annsA annsB] assms
  by (auto simp: matching_def quoteAt_def commentAt_def)

lemma metrics_of_fallback:
  fixes annsA :: "'a annotation_text_scheme list" and annsB :: "'b annotation_text_scheme list"
  defines "fb \<equiv> fallbackAnnotationMatches annsA annsB"
  defines "cmp \<equiv> annotationMetrics annsA annsB (map index_match.truncate fb) (firstReason fb)"
  shows "shared cmp = length fb"
    and "onlyA cmp = length annsA - length fb"
    and "onlyB cmp = length annsB - length fb"
    and "averageQuoteOverlap cmp
           = (if fb = [] then 0 else toFixed 3 (sum_list (map quoteScore fb) / of_nat (length fb)))"
    and "averageCommentSimilarity cmp
           = (if fb = [] then 0 else toFixed 3 (sum_list (map commentScore fb) / of_nat (length fb)))"
proof -
  have q: "map (\<lambda>m. quoteOverlapScore (quoteAt annsA (aIndex m)) (quoteAt annsB (bIndex m)))
             (map index_match.truncate fb) = map quoteScore fb"
    unfolding fb_def by (auto simp: index_match.truncate_def fallback_scores)
  have c: "map (\<lambda>m. commentSimilarityScore (commentAt annsA (aIndex m)) (commentAt annsB (bIndex m)))
             (map index_match.truncate fb) = map commentScore fb"
    unfolding fb_def by (auto simp: index_match.truncate_def fallback_scores)
  have d: "card (set (map bIndex (map index_match.truncate fb))) = length fb"
    using fallback_matching[of annsA annsB]
    by (auto simp: fb_def matching_def index_match.truncate_def comp_def distinct_card
        dest!: distinct_card)
  show "shared cmp = length fb" by (simp add: cmp_def annotationMetrics_def Let_def)
  show "onlyA cmp = length annsA - length fb" by (simp add: cmp_def annotationMetrics_def Let_def)
  show "onlyB cmp = length annsB - length fb"
    unfolding cmp_def annotationMetrics_def Let_def d by simp
  show "averageQuoteOverlap cmp
           = (if fb = [] then 0 else toFixed 3 (sum_list (map quoteScore fb) / of_nat (length fb)))"
    unfolding cmp_def annotationMetrics_def Let_def q by simp
  show "averageCommentSimilarity cmp
           = (if fb = [] then 0 else toFixed 3 (sum_list (map commentScore fb) / of_nat (length fb)))"
    unfolding cmp_def annotationMetrics_def Let_def c by simp
qed

text \<open>
  Claim C6: if the judge returns no match that passes the integrity filter, or its call
  fails, the reported metrics are those of the heuristic matching alone: \<open>shared\<close> is the
  number of heuristic matches, \<open>onlyA\<close> and \<open>onlyB\<close> are what is left of each list, the
  shared fraction is taken over the longer list, and the two averages are the averages of
  the quote and comment scores of the heuristic matches, rounded to three decimals.
\<close>

theorem compareAnnotations_falls_back:
  fixes annsA :: "'a annotation_text_scheme list" and annsB :: "'b annotation_text_scheme list"
  defines "fb \<equiv> fallbackAnnotationMatches annsA annsB"
  assumes "judgeFindsNothing e annsA annsB s"
  shows "\<exists>cmp. fst (compareAnnotations e annsA annsB s) = Inr cmp
           \<and> cmp = annotationMetrics annsA annsB (map index_match.truncate fb) (firstReason fb)
           \<and> shared cmp = length fb
           \<and> onlyA cmp = length annsA - length fb
           \<and> onlyB cmp = length annsB - length fb
           \<and> sharedFraction cmp
               = (if max (length annsA) (length annsB) > 0
                  then of_nat (length fb) / of_nat (max (length annsA) (length annsB)) else 0)
           \<and> averageQuoteOverlap cmp
               = (if fb = [] then 0 else toFixed 3 (sum_list (map quoteScore fb) / of_nat (length fb)))
           \<and> averageCommentSimilarity cmp
               = (if fb = [] then 0 else toFixed 3 (sum_list (map commentScore fb) / of_nat (length fb)))"
proof -
  let ?cmp = "annotationMetrics annsA annsB (map index_match.truncate fb) (firstReason fb)"
  have "fst (compareAnnotations e annsA annsB s) = Inr ?cmp"
    unfolding fb_def by (rule compareAnnotations_nothing[OF assms(2)])
  moreover have "sharedFraction ?cmp
               = (if max (length annsA) (length annsB) > 0
                  then of_nat (length fb) / of_nat (max (length annsA) (length annsB)) else 0)"
    by (simp add: annotationMetrics_def Let_def)
  ultimately show ?thesis
    using metrics_of_fallback[of annsA annsB] unfolding fb_def by blast
qed

theorem compareAnnotations_falls_back_witness:
  "judgeFindsNothing silentJudgeEnv gondolaA gondolaB start
   \<and> fst (compareAnnotations silentJudgeEnv gondolaA gondolaB start)
       = Inr \<lparr>shared = 1, onlyA = 0, onlyB = 0, sharedFraction = 1,
               agreementNote = ''Quote overlap 100%, comment similarity 17%'',
               averageQuoteOverlap = 1, averageCommentSimilarity = 167 / 1000\<rparr>"
proof -
  have h: "judgeFindsNothing silentJudgeEnv gondolaA gondolaB start" by code_simp
  have v: "fst (compareAnnotations silentJudgeEnv gondolaA gondolaB start)
       = Inr \<lparr>shared = 1, onlyA = 0, onlyB = 0, sharedFraction = 1,
               agreementNote = ''Quote overlap 100%, comment similarity 17%'',
               averageQuoteOverlap = 1, averageCommentSimilarity = 167 / 1000\<rparr>"
    by code_simp
  from compareAnnotations_falls_back[OF h] h v show ?thesis by simp
qed

subsection \<open>The text consistency protocol\<close>
























subsection \<open>The annotation consistency protocol\<close>







subsection \<open>Pacing and failure\<close>



lemma calm_Nil [simp]: "calm []"
  by (simp add: calm_def)

























lemma harmless_simps [simp]:
  "harmless (OracleCall r b) = (r = Highlighting \<or> r = Judging \<or> r = Commentary)"
  "harmless (LogLine l) = (l \<noteq> CriticalError)"
  "harmless (StatusChanged rid st)"
  by (simp_all add: harmless_def)

















subsection \<open>Failure of an oracle call\<close>




subsection \<open>Pacing\<close>




end
